theory Spec2Isabelle
  imports Main "HOL-Library.Sublist"
begin

section \<open>Python string primitives used by \<^verbatim>\<open>sbin/scaffold.py\<close>\<close>

text \<open>
  Strings are lists of characters. The script only ever compares against, and builds from,
  ASCII literals, so case conversion is modelled on the ASCII letters and is the identity
  elsewhere.
\<close>

definition ascii_lowercase :: string where
  "ascii_lowercase = ''abcdefghijklmnopqrstuvwxyz''"

definition ascii_uppercase :: string where
  "ascii_uppercase = ''ABCDEFGHIJKLMNOPQRSTUVWXYZ''"

definition digits :: string where
  "digits = ''0123456789''"

definition to_upper :: "char \<Rightarrow> char" where
  "to_upper c = (case map_of (zip ascii_lowercase ascii_uppercase) c of Some u \<Rightarrow> u | None \<Rightarrow> c)"

definition to_lower :: "char \<Rightarrow> char" where
  "to_lower c = (case map_of (zip ascii_uppercase ascii_lowercase) c of Some l \<Rightarrow> l | None \<Rightarrow> c)"

text \<open>\<^verbatim>\<open>str.upper()\<close>, \<^verbatim>\<open>str.lower()\<close> and \<^verbatim>\<open>str.capitalize()\<close>.\<close>

definition upper :: "string \<Rightarrow> string" where
  "upper s = map to_upper s"

definition lower :: "string \<Rightarrow> string" where
  "lower s = map to_lower s"

fun capitalize :: "string \<Rightarrow> string" where
  "capitalize [] = []"
| "capitalize (c # cs) = to_upper c # map to_lower cs"

text \<open>\<^verbatim>\<open>old in s\<close>: \<open>old\<close> occurs in \<open>s\<close> as a contiguous substring.\<close>

fun starts_with :: "string \<Rightarrow> string \<Rightarrow> bool" where
  "starts_with [] s = True"
| "starts_with (p # ps) [] = False"
| "starts_with (p # ps) (c # cs) = (p = c \<and> starts_with ps cs)"

fun contains :: "string \<Rightarrow> string \<Rightarrow> bool" where
  "contains old [] = (old = [])"
| "contains old (c # cs) = (starts_with old (c # cs) \<or> contains old cs)"

text \<open>
  \<^verbatim>\<open>s.replace(old, new)\<close>: every non-overlapping occurrence of \<open>old\<close>, scanning from the
  left, is replaced by \<open>new\<close>. For an empty \<open>old\<close> Python inserts \<open>new\<close> before every
  character and at the end.
\<close>

function replace :: "string \<Rightarrow> string \<Rightarrow> string \<Rightarrow> string" where
  "replace old new s =
     (if old = [] then new @ concat (map (\<lambda>c. c # new) s)
      else if starts_with old s then new @ replace old new (drop (length old) s)
      else (case s of [] \<Rightarrow> [] | c # cs \<Rightarrow> c # replace old new cs))"
  by pat_completeness auto
termination
proof (relation "measure (\<lambda>(old, new, s). length s)")
  show "wf (measure (\<lambda>(old, new, s). length s))" by simp
next
  fix old new :: string and s :: string
  assume "old \<noteq> []" and "starts_with old s"
  then have "s \<noteq> []" by (cases old; cases s) auto
  with \<open>old \<noteq> []\<close>
  show "((old, new, drop (length old) s), (old, new, s)) \<in> measure (\<lambda>(old, new, s). length s)"
    by (cases old; cases s) auto
next
  fix old new :: string and s :: string and c cs
  assume "s = c # cs"
  then show "((old, new, cs), (old, new, s)) \<in> measure (\<lambda>(old, new, s). length s)"
    by simp
qed

declare replace.simps [simp del]

text \<open>\<^verbatim>\<open>s.split(sep)\<close> for a one-character separator: empty pieces are kept.\<close>

fun split :: "char \<Rightarrow> string \<Rightarrow> string list" where
  "split sep [] = [[]]"
| "split sep (c # cs) =
     (if c = sep then [] # split sep cs
      else (case split sep cs of [] \<Rightarrow> [[c]] | p # ps \<Rightarrow> (c # p) # ps))"

text \<open>\<^verbatim>\<open>sep.join(parts)\<close>.\<close>

fun join :: "string \<Rightarrow> string list \<Rightarrow> string" where
  "join sep [] = []"
| "join sep [p] = p"
| "join sep (p # q # ps) = p @ sep @ join sep (q # ps)"

section \<open>Name derivation\<close>

text \<open>
  \<^verbatim>\<open>re.match(r"^[a-z][a-z0-9]*(-[a-z0-9]+)*$", name)\<close>, written out as the automaton of the
  pattern. \<open>name_rest\<close> is the state after a character of \<^verbatim>\<open>[a-z0-9]\<close> (the match may
  end here), \<open>name_seg\<close> the state after a hyphen (a character of \<^verbatim>\<open>[a-z0-9]\<close> must
  follow). Without \<^verbatim>\<open>re.MULTILINE\<close>, Python's \<^verbatim>\<open>$\<close> matches at the end of the string
  and also just before a newline that is the last character of the string; that is the
  second equation of \<open>name_rest\<close>.
\<close>

definition is_lower :: "char \<Rightarrow> bool" where
  "is_lower c = (c \<in> set ascii_lowercase)"

definition is_lower_digit :: "char \<Rightarrow> bool" where
  "is_lower_digit c = (c \<in> set ascii_lowercase \<or> c \<in> set digits)"

fun name_rest :: "string \<Rightarrow> bool" and name_seg :: "string \<Rightarrow> bool" where
  "name_rest [] = True"
| "name_rest (c # cs) =
     (if c = CHR 0x0A \<and> cs = [] then True
      else if is_lower_digit c then name_rest cs
      else if c = CHR ''-'' then name_seg cs
      else False)"
| "name_seg [] = False"
| "name_seg (c # cs) = (is_lower_digit c \<and> name_rest cs)"

fun re_match_name :: "string \<Rightarrow> bool" where
  "re_match_name [] = False"
| "re_match_name (c # cs) = (is_lower c \<and> name_rest cs)"

record names =
  name :: string
  repo_name :: string
  pypi_name :: string
  package_name :: string
  snake_name :: string
  pascal_name :: string
  display_name :: string

text \<open>
  \<open>derive_names\<close> either returns the record of name variants, or prints a message and
  calls \<^verbatim>\<open>sys.exit(1)\<close>; the latter is \<open>Inl\<close> of the printed line, and the caller
  turns it into the exit.
\<close>

definition derive_names :: "string \<Rightarrow> string + names" where
  "derive_names nm =
     (if \<not> re_match_name nm then
        Inl (''Error: name '' @ [CHR 0x27] @ nm @ [CHR 0x27]
             @ '' must be lowercase with hyphens (e.g., ''
             @ [CHR 0x27] @ ''kbe-pay'' @ [CHR 0x27] @ '', ''
             @ [CHR 0x27] @ ''my-app'' @ [CHR 0x27] @ '')'')
      else
        let snake = replace ''-'' ''_'' nm;
            parts = split CHR ''-'' nm;
            pascal = concat (map capitalize parts);
            display = join '' '' (map capitalize parts)
        in Inr \<lparr> name = nm,
                 repo_name = ''autobots-'' @ nm,
                 pypi_name = ''autobots-'' @ nm,
                 package_name = ''autobots_'' @ snake,
                 snake_name = snake,
                 pascal_name = pascal,
                 display_name = display \<rparr>)"


text \<open>\<^verbatim>\<open>str(n)\<close> for an integer, in decimal.\<close>

function str_digits :: "int \<Rightarrow> string" where
  "str_digits n =
     (if n < 10 then [digits ! nat n] else str_digits (n div 10) @ [digits ! nat (n mod 10)])"
  by pat_completeness auto
termination
  by (relation "measure (\<lambda>n. nat n)") auto

declare str_digits.simps [simp del]

definition str_int :: "int \<Rightarrow> string" where
  "str_int i = (if i < 0 then CHR ''-'' # str_digits (- i) else str_digits i)"

section \<open>The file tree\<close>

text \<open>
  The project directory is a tree of named nodes; the children of a directory are kept in
  the order in which the operating system lists them. A file's content is what
  \<^verbatim>\<open>read_text\<close> makes of it: a text, bytes that do not decode as UTF-8, or a file the
  process may not read. Paths are lists of components relative to the project directory.
  The model works on decoded text: line-ending translation and write permissions are not
  represented.
\<close>

datatype contents = Text string | Undecodable string | NoPermission string

datatype node = File string contents | Dir string "node list"

datatype exn =
    SystemExit nat
  | FileNotFoundError
  | IsADirectoryError
  | NotADirectoryError
  | OSError
  | PermissionError
  | UnicodeDecodeError
  | ValueError

fun node_name :: "node \<Rightarrow> string" where
  "node_name (File n c) = n"
| "node_name (Dir n cs) = n"

fun is_dir_node :: "node \<Rightarrow> bool" where
  "is_dir_node (File n c) = False"
| "is_dir_node (Dir n cs) = True"

fun children :: "node \<Rightarrow> node list" where
  "children (File n c) = []"
| "children (Dir n cs) = cs"

fun set_name :: "string \<Rightarrow> node \<Rightarrow> node" where
  "set_name m (File n c) = File m c"
| "set_name m (Dir n cs) = Dir m cs"

text \<open>The node a path denotes; the first entry of a directory with the given name counts.\<close>

fun lookup :: "string list \<Rightarrow> node \<Rightarrow> node option"
  and lookup_in :: "string \<Rightarrow> string list \<Rightarrow> node list \<Rightarrow> node option" where
  "lookup [] n = Some n"
| "lookup (x # xs) (File n c) = None"
| "lookup (x # xs) (Dir n cs) = lookup_in x xs cs"
| "lookup_in x xs [] = None"
| "lookup_in x xs (c # cs) = (if node_name c = x then lookup xs c else lookup_in x xs cs)"

text \<open>Apply \<open>f\<close> to the node a path denotes; nothing happens when the path denotes nothing.\<close>

fun update_at :: "string list \<Rightarrow> (node \<Rightarrow> node) \<Rightarrow> node \<Rightarrow> node"
  and update_in :: "string \<Rightarrow> string list \<Rightarrow> (node \<Rightarrow> node) \<Rightarrow> node list \<Rightarrow> node list" where
  "update_at [] f n = f n"
| "update_at (x # xs) f (File n c) = File n c"
| "update_at (x # xs) f (Dir n cs) = Dir n (update_in x xs f cs)"
| "update_in x xs f [] = []"
| "update_in x xs f (c # cs) =
     (if node_name c = x then update_at xs f c # cs else c # update_in x xs f cs)"

fun remove_first :: "string \<Rightarrow> node list \<Rightarrow> node list" where
  "remove_first x [] = []"
| "remove_first x (c # cs) = (if node_name c = x then cs else c # remove_first x cs)"

fun remove_child :: "string \<Rightarrow> node \<Rightarrow> node" where
  "remove_child x (File n c) = File n c"
| "remove_child x (Dir n cs) = Dir n (remove_first x cs)"

fun add_child :: "node \<Rightarrow> node \<Rightarrow> node" where
  "add_child c (File n k) = File n k"
| "add_child c (Dir n cs) = Dir n (remove_first (node_name c) cs @ [c])"

text \<open>
  \<^verbatim>\<open>shutil.rmtree\<close> and \<^verbatim>\<open>Path.unlink\<close> both take the entry out of its directory; the
  project directory itself is never removed.
\<close>

definition remove_at :: "string list \<Rightarrow> node \<Rightarrow> node" where
  "remove_at p t = (if p = [] then t else update_at (butlast p) (remove_child (last p)) t)"

fun set_text :: "string \<Rightarrow> node \<Rightarrow> node" where
  "set_text s (File n c) = File n (Text s)"
| "set_text s (Dir n cs) = Dir n cs"

text \<open>
  The state of a run: the name of the directory that holds the project directory, the
  project directory itself, the lines printed so far, and the paths opened for reading so
  far.
\<close>

record world =
  parent_name :: string
  tree :: node
  out :: "string list"
  opened :: "string list list"

type_synonym result = "(exn \<times> world) + world"

definition print :: "string \<Rightarrow> world \<Rightarrow> world" where
  "print line w = w\<lparr>out := out w @ [line]\<rparr>"

definition exists :: "string list \<Rightarrow> world \<Rightarrow> bool" where
  "exists p w = (lookup p (tree w) \<noteq> None)"

definition is_dir :: "string list \<Rightarrow> world \<Rightarrow> bool" where
  "is_dir p w = (case lookup p (tree w) of Some (Dir n cs) \<Rightarrow> True | _ \<Rightarrow> False)"

text \<open>\<^verbatim>\<open>Path.read_text\<close>: what was read or the exception raised, and the state with the read recorded.\<close>

definition read_text :: "string list \<Rightarrow> world \<Rightarrow> (exn + string) \<times> world" where
  "read_text p w =
     (case lookup p (tree w) of
        None \<Rightarrow> Inl FileNotFoundError
      | Some (Dir n cs) \<Rightarrow> Inl IsADirectoryError
      | Some (File n (Text s)) \<Rightarrow> Inr s
      | Some (File n (Undecodable bs)) \<Rightarrow> Inl UnicodeDecodeError
      | Some (File n (NoPermission bs)) \<Rightarrow> Inl PermissionError,
      w\<lparr>opened := opened w @ [p]\<rparr>)"

definition write_text :: "string list \<Rightarrow> string \<Rightarrow> world \<Rightarrow> world" where
  "write_text p s w = w\<lparr>tree := update_at p (set_text s) (tree w)\<rparr>"

text \<open>The text of the file at a path, for stating what a step leaves alone.\<close>

definition file_at :: "string list \<Rightarrow> node \<Rightarrow> contents option" where
  "file_at p t = (case lookup p t of Some (File n c) \<Rightarrow> Some c | _ \<Rightarrow> None)"

text \<open>A relative path as the script prints it, and a relative path literal as a path.\<close>

definition path_str :: "string list \<Rightarrow> string" where
  "path_str p = (if p = [] then ''.'' else join ''/'' p)"

definition rel_path :: "string \<Rightarrow> string list" where
  "rel_path s = split CHR ''/'' s"

text \<open>A loop over a list whose body may raise: the first exception ends it.\<close>

fun for_each :: "('a \<Rightarrow> world \<Rightarrow> result) \<Rightarrow> 'a list \<Rightarrow> world \<Rightarrow> result" where
  "for_each body [] w = Inr w"
| "for_each body (x # xs) w =
     (case body x w of Inl e \<Rightarrow> Inl e | Inr w' \<Rightarrow> for_each body xs w')"


section \<open>The scaffolding steps\<close>

definition SKIP_DIRS :: "string list" where
  "SKIP_DIRS = [''.git'', ''.venv'', ''__pycache__'', ''node_modules'']"

definition BINARY_EXTENSIONS :: "string list" where
  "BINARY_EXTENSIONS =
     [''.png'', ''.jpg'', ''.jpeg'', ''.gif'', ''.ico'', ''.bmp'', ''.svg'', ''.woff'',
      ''.woff2'', ''.ttf'', ''.eot'', ''.pyc'', ''.pyo'', ''.so'', ''.dylib'', ''.zip'',
      ''.tar'', ''.gz'', ''.bz2'', ''.xz'', ''.pdf'', ''.drawio'', ''.lock'']"

definition ARTIFACTS_TO_CLEAN :: "string list" where
  "ARTIFACTS_TO_CLEAN =
     [''.coverage'', ''coverage.xml'', ''htmlcov'', ''.pytest_cache'', ''.ruff_cache'',
      ''poetry.lock'']"

definition PATHS_TO_REMOVE :: "string list" where
  "PATHS_TO_REMOVE =
     [''src/autobots_agents_jarvis/domains/customer_support'',
      ''src/autobots_agents_jarvis/domains/sales'',
      ''agent_configs/customer-support'',
      ''agent_configs/sales'',
      ''sbin/run_customer_support.sh'',
      ''sbin/run_sales.sh'',
      ''sbin/run_all_domains.sh'',
      ''tests/unit/domains'',
      ''tests/sanity'']"

subsection \<open>The replacement table\<close>

definition build_replacements :: "names \<Rightarrow> (string \<times> string) list" where
  "build_replacements names =
     (let sn = snake_name names;
          upper_sn = upper sn;
          pkg = package_name names;
          pascal = pascal_name names;
          display = display_name names;
          repo = repo_name names
      in [(''autobots-agents-jarvis'', repo),
          (''autobots_agents_jarvis'', pkg),
          (''JarvisSettings'', pascal @ ''Settings''),
          (''get_jarvis_settings'', ''get_'' @ sn @ ''_settings''),
          (''init_jarvis_settings'', ''init_'' @ sn @ ''_settings''),
          (''register_jarvis_tools'', ''register_'' @ sn @ ''_tools''),
          (''_get_jarvis_batch_agents'', ''_get_'' @ sn @ ''_batch_agents''),
          (''jarvis_registered'', sn @ ''_registered''),
          (''jarvis_batch'', sn @ ''_batch''),
          (''jarvis_chat'', sn @ ''_chat''),
          (''jarvis-chat'', sn @ ''-chat''),
          (''jarvis_tools'', sn @ ''_tools''),
          (''jarvis-invoke-demo'', sn @ ''-invoke-demo''),
          (''run_jarvis'', ''run_'' @ sn),
          (''jarvis_ui'', sn @ ''_ui''),
          (''JARVIS'', upper_sn),
          (''Jarvis'', display),
          (''jarvis'', sn)])"

text \<open>
  \<^verbatim>\<open>Path.suffix\<close> of a file name: the part from the last dot on, unless that dot is the
  first or the last character of the name.
\<close>

definition rfind :: "char \<Rightarrow> string \<Rightarrow> nat option" where
  "rfind c s =
     (if c \<in> set s then Some (length s - 1 - length (takeWhile (\<lambda>d. d \<noteq> c) (rev s)))
      else None)"

definition path_suffix :: "string \<Rightarrow> string" where
  "path_suffix nm =
     (case rfind CHR ''.'' nm of
        None \<Rightarrow> []
      | Some i \<Rightarrow> if 0 < i \<and> i < length nm - 1 then drop i nm else [])"

definition is_binary :: "string list \<Rightarrow> bool" where
  "is_binary path = (path \<noteq> [] \<and> lower (path_suffix (last path)) \<in> set BINARY_EXTENSIONS)"

fun apply_replacements :: "string \<Rightarrow> (string \<times> string) list \<Rightarrow> string" where
  "apply_replacements content [] = content"
| "apply_replacements content ((old, new) # replacements) =
     apply_replacements (replace old new content) replacements"

subsection \<open>Cleaning artifacts and removing demo content\<close>

definition clean_one :: "bool \<Rightarrow> string \<Rightarrow> world \<Rightarrow> world" where
  "clean_one dry_run rel w =
     (let target = rel_path rel in
      if \<not> exists target w then w
      else if dry_run then print (''[DRY RUN] Would clean: '' @ rel) w
      else if is_dir target w then
        print (''Cleaned: '' @ rel @ ''/'') (w\<lparr>tree := remove_at target (tree w)\<rparr>)
      else print (''Cleaned: '' @ rel) (w\<lparr>tree := remove_at target (tree w)\<rparr>))"

definition clean_artifacts :: "bool \<Rightarrow> world \<Rightarrow> world" where
  "clean_artifacts dry_run w = fold (clean_one dry_run) ARTIFACTS_TO_CLEAN w"

definition remove_one :: "bool \<Rightarrow> string \<Rightarrow> world \<Rightarrow> world" where
  "remove_one dry_run rel w =
     (let target = rel_path rel in
      if \<not> exists target w then w
      else if dry_run then print (''[DRY RUN] Would remove: '' @ rel) w
      else if is_dir target w then
        print (''Removed directory: '' @ rel) (w\<lparr>tree := remove_at target (tree w)\<rparr>)
      else print (''Removed file: '' @ rel) (w\<lparr>tree := remove_at target (tree w)\<rparr>))"

definition remove_demo_content :: "bool \<Rightarrow> world \<Rightarrow> world" where
  "remove_demo_content dry_run w = fold (remove_one dry_run) PATHS_TO_REMOVE w"

subsection \<open>Rewriting file contents\<close>

text \<open>
  \<^verbatim>\<open>os.walk(project_dir)\<close> with the pruning \<^verbatim>\<open>dirs[:] = [d for d in dirs if d not in SKIP_DIRS]\<close>:
  each directory is visited before its subdirectories, and a subdirectory with a protected
  name is not entered. An entry is the directory's path and the names of its files. The
  loop body only replaces file contents, so the directories visited are those of the tree
  the walk started on.
\<close>

fun walk_top_down :: "string list \<Rightarrow> node \<Rightarrow> (string list \<times> string list) list"
  and walk_top_down_in :: "string list \<Rightarrow> node list \<Rightarrow> (string list \<times> string list) list" where
  "walk_top_down root (File n c) = []"
| "walk_top_down root (Dir n cs) =
     (root, map node_name (filter (\<lambda>c. \<not> is_dir_node c) cs)) # walk_top_down_in root cs"
| "walk_top_down_in root [] = []"
| "walk_top_down_in root (c # cs) =
     (if is_dir_node c \<and> node_name c \<notin> set SKIP_DIRS
      then walk_top_down (root @ [node_name c]) c else [])
     @ walk_top_down_in root cs"

definition dry_run_report :: "string list \<Rightarrow> string \<Rightarrow> (string \<times> string) list \<Rightarrow> string list" where
  "dry_run_report rel content replacements =
     map (\<lambda>(old, new). ''[DRY RUN] '' @ path_str rel @ '': '' @ [CHR 0x27] @ old @ [CHR 0x27]
                          @ '' -> '' @ [CHR 0x27] @ new @ [CHR 0x27])
         (filter (\<lambda>(old, new). contains old content) replacements)"

definition replace_in_file ::
  "(string \<times> string) list \<Rightarrow> bool \<Rightarrow> string list \<Rightarrow> string \<Rightarrow> world \<Rightarrow> result" where
  "replace_in_file replacements dry_run root filename w =
     (let filepath = root @ [filename] in
      if is_binary filepath then Inr w
      else
        (case read_text filepath w of
           (Inl UnicodeDecodeError, w) \<Rightarrow> Inr w
         | (Inl PermissionError, w) \<Rightarrow> Inr w
         | (Inl e, w) \<Rightarrow> Inl (e, w)
         | (Inr content, w) \<Rightarrow>
             let new_content = apply_replacements content replacements in
             if new_content \<noteq> content then
               (if dry_run then Inr (fold print (dry_run_report filepath content replacements) w)
                else Inr (print (''Updated: '' @ path_str filepath)
                            (write_text filepath new_content w)))
             else Inr w))"

definition replace_in_files :: "(string \<times> string) list \<Rightarrow> bool \<Rightarrow> world \<Rightarrow> result" where
  "replace_in_files replacements dry_run w =
     for_each (\<lambda>(root, files). for_each (replace_in_file replacements dry_run root) files)
       (walk_top_down [] (tree w)) w"

subsection \<open>Renaming paths\<close>

text \<open>
  \<^verbatim>\<open>os.walk(project_dir, topdown=False)\<close>: every directory is visited, after all of its
  subdirectories. Nothing is renamed while the walk runs.
\<close>

fun walk_bottom_up :: "string list \<Rightarrow> node \<Rightarrow> (string list \<times> string list) list"
  and walk_bottom_up_in :: "string list \<Rightarrow> node list \<Rightarrow> (string list \<times> string list) list" where
  "walk_bottom_up root (File n c) = []"
| "walk_bottom_up root (Dir n cs) =
     walk_bottom_up_in root cs @ [(root, map node_name (filter (\<lambda>c. \<not> is_dir_node c) cs))]"
| "walk_bottom_up_in root [] = []"
| "walk_bottom_up_in root (c # cs) =
     (if is_dir_node c then walk_bottom_up (root @ [node_name c]) c else [])
     @ walk_bottom_up_in root cs"

text \<open>
  The paths of the renamer are absolute. An absolute path is written here from the parent
  of the project directory on: \<open>project_dir w\<close> followed by the path inside the project.
  \<^verbatim>\<open>Path.relative_to\<close> raises \<^verbatim>\<open>ValueError\<close> for a path that is not below its argument.
\<close>

definition project_dir :: "world \<Rightarrow> string list" where
  "project_dir w = [parent_name w, node_name (tree w)]"

definition path_name :: "string list \<Rightarrow> string" where
  "path_name p = (if p = [] then [] else last p)"

definition path_parent :: "string list \<Rightarrow> string list" where
  "path_parent p = butlast p"

definition relative_to :: "string list \<Rightarrow> string list \<Rightarrow> exn + string list" where
  "relative_to base p =
     (if take (length base) p = base then Inr (drop (length base) p) else Inl ValueError)"

text \<open>The renames one visited directory contributes: its files first, then itself.\<close>

definition renames_of ::
  "string \<Rightarrow> string \<Rightarrow> string list \<Rightarrow> string list \<times> string list
   \<Rightarrow> (string list \<times> string list) list" where
  "renames_of sn pkg proj = (\<lambda>(root, files).
     let root_path = proj @ root in
     if \<exists>part \<in> set root. part \<in> set SKIP_DIRS then []
     else
       concat (map (\<lambda>filename.
                 if contains ''jarvis'' filename
                 then [(root_path @ [filename], root_path @ [replace ''jarvis'' sn filename])]
                 else []) files)
       @ (let dir_name = path_name root_path in
          if dir_name = ''autobots_agents_jarvis''
          then [(root_path, path_parent root_path @ [pkg])]
          else if dir_name = ''jarvis''
                  \<and> path_name (path_parent root_path) \<in> {''domains'', ''agent_configs''}
          then [(root_path, path_parent root_path @ [sn])]
          else []))"

definition paths_to_rename :: "names \<Rightarrow> world \<Rightarrow> (string list \<times> string list) list" where
  "paths_to_rename names w =
     concat (map (renames_of (snake_name names) (package_name names) (project_dir w))
                 (walk_bottom_up [] (tree w)))"

text \<open>
  \<^verbatim>\<open>Path.rename\<close> (POSIX \<^verbatim>\<open>rename(2)\<close>) inside the project directory: renaming a path to
  itself does nothing; a file replaces an existing file, a directory replaces an existing
  empty directory; every other clash raises.
\<close>

definition move :: "string list \<Rightarrow> string list \<Rightarrow> node \<Rightarrow> node \<Rightarrow> node" where
  "move old new src t =
     update_at (butlast new) (add_child (set_name (last new) src)) (remove_at old t)"

definition rename :: "string list \<Rightarrow> string list \<Rightarrow> node \<Rightarrow> exn + node" where
  "rename old new t =
     (case lookup old t of
        None \<Rightarrow> Inl FileNotFoundError
      | Some src \<Rightarrow>
          if old = new then Inr t
          else if old = [] \<or> new = [] \<or> take (length old) new = old then Inl OSError
          else
            (case lookup (butlast new) t of
               None \<Rightarrow> Inl FileNotFoundError
             | Some (File n c) \<Rightarrow> Inl NotADirectoryError
             | Some (Dir n cs) \<Rightarrow>
                 (case lookup new t of
                    None \<Rightarrow> Inr (move old new src t)
                  | Some (File m c) \<Rightarrow>
                      if is_dir_node src then Inl NotADirectoryError
                      else Inr (move old new src t)
                  | Some (Dir m ds) \<Rightarrow>
                      if \<not> is_dir_node src then Inl IsADirectoryError
                      else if ds \<noteq> [] then Inl OSError
                      else Inr (move old new src t))))"

definition rename_one :: "bool \<Rightarrow> string list \<Rightarrow> string list \<times> string list \<Rightarrow> world \<Rightarrow> result" where
  "rename_one dry_run proj = (\<lambda>(old_path, new_path) w.
     case relative_to proj old_path of
       Inl e \<Rightarrow> Inl (e, w)
     | Inr rel_old \<Rightarrow>
         (case relative_to proj new_path of
            Inl e \<Rightarrow> Inl (e, w)
          | Inr rel_new \<Rightarrow>
              if dry_run then
                Inr (print (''[DRY RUN] Rename: '' @ path_str rel_old @ '' -> '' @ path_str rel_new) w)
              else if exists rel_old w then
                (case rename rel_old rel_new (tree w) of
                   Inl e \<Rightarrow> Inl (e, w)
                 | Inr t \<Rightarrow>
                     Inr (print (''Renamed: '' @ path_str rel_old @ '' -> '' @ path_str rel_new)
                            (w\<lparr>tree := t\<rparr>)))
              else Inr w))"

definition rename_paths :: "names \<Rightarrow> bool \<Rightarrow> world \<Rightarrow> result" where
  "rename_paths names dry_run w =
     for_each (rename_one dry_run (project_dir w)) (paths_to_rename names w) w"

subsection \<open>Post-processing overrides and self-deletion\<close>

text \<open>Read a file, replace a literal, write the file back; a failing read is not caught.\<close>

definition rewrite_literal :: "string \<Rightarrow> string \<Rightarrow> string list \<Rightarrow> world \<Rightarrow> result" where
  "rewrite_literal old new p w =
     (case read_text p w of
        (Inl e, w) \<Rightarrow> Inl (e, w)
      | (Inr content, w) \<Rightarrow> Inr (write_text p (replace old new content) w))"

definition update_description :: "names \<Rightarrow> string \<Rightarrow> world \<Rightarrow> result" where
  "update_description names description w =
     (let pyproject = [''pyproject.toml''] in
      if exists pyproject w then
        (case rewrite_literal (display_name names @ '' - Multi-agent AI Assistant Demo'')
                description pyproject w of
           Inl e \<Rightarrow> Inl e
         | Inr w' \<Rightarrow> Inr (print ''Updated description in pyproject.toml'' w'))
      else Inr w)"

text \<open>
  \<^verbatim>\<open>project_dir.rglob("settings.py")\<close>: every entry of that name below the project
  directory, a directory's own entries before those of its subdirectories.
\<close>

fun rglob :: "string \<Rightarrow> string list \<Rightarrow> node \<Rightarrow> string list list"
  and rglob_in :: "string \<Rightarrow> string list \<Rightarrow> node list \<Rightarrow> string list list" where
  "rglob pat root (File n c) = []"
| "rglob pat root (Dir n cs) =
     map (\<lambda>c. root @ [node_name c]) (filter (\<lambda>c. node_name c = pat) cs) @ rglob_in pat root cs"
| "rglob_in pat root [] = []"
| "rglob_in pat root (c # cs) = rglob pat (root @ [node_name c]) c @ rglob_in pat root cs"

text \<open>Sequencing of steps: an exception ends the run with the state it was raised in.\<close>

definition and_then :: "result \<Rightarrow> (world \<Rightarrow> result) \<Rightarrow> result" where
  "and_then r f = (case r of Inl e \<Rightarrow> Inl e | Inr w \<Rightarrow> f w)"

definition update_port :: "names \<Rightarrow> int \<Rightarrow> world \<Rightarrow> result" where
  "update_port names port w =
     and_then
       (let makefile = [''Makefile''] in
        if exists makefile w
        then rewrite_literal ''CHAINLIT_PORT = 1337'' (''CHAINLIT_PORT = '' @ str_int port) makefile w
        else Inr w)
     (\<lambda>w. and_then
       (for_each (rewrite_literal ''default=1337'' (''default='' @ str_int port))
          (rglob ''settings.py'' [] (tree w)) w)
     (\<lambda>w. and_then
       (let run_script = [''sbin'', ''run_'' @ snake_name names @ ''.sh''] in
        if exists run_script w
        then rewrite_literal ''PORT:-1337'' (''PORT:-'' @ str_int port) run_script w
        else Inr w)
     (\<lambda>w. Inr (print (''Updated port to '' @ str_int port) w))))"

definition unlink :: "string list \<Rightarrow> world \<Rightarrow> result" where
  "unlink p w =
     (case lookup p (tree w) of
        None \<Rightarrow> Inl (FileNotFoundError, w)
      | Some (Dir n cs) \<Rightarrow> Inl (IsADirectoryError, w)
      | Some (File n c) \<Rightarrow> Inr (w\<lparr>tree := remove_at p (tree w)\<rparr>))"

subsection \<open>The whole script\<close>

record args =
  arg_name :: string
  arg_display_name :: "string option"
  arg_description :: "string option"
  arg_port :: int
  arg_dry_run :: bool

text \<open>Python's truth value of an optional string: \<^verbatim>\<open>None\<close> and the empty string are false.\<close>

fun truthy :: "string option \<Rightarrow> bool" where
  "truthy None = False"
| "truthy (Some s) = (s \<noteq> [])"

definition script_path :: "string list" where
  "script_path = [''sbin'', ''scaffold.py'']"

definition banner :: "names \<Rightarrow> args \<Rightarrow> string list" where
  "banner names a =
     [''Scaffolding project: '' @ repo_name names,
      ''  Package:  '' @ package_name names,
      ''  Display:  '' @ display_name names,
      ''  Domain:   '' @ snake_name names]
     @ (if truthy (arg_description a) then [''  Desc:     '' @ the (arg_description a)] else [])
     @ (if arg_port a \<noteq> 1337 then [''  Port:     '' @ str_int (arg_port a)] else [])
     @ [[]]"

definition closing :: "string list" where
  "closing =
     [[], ''Done! Your project is ready.'', [], ''Next steps:'',
      ''  cp .env.example .env'', ''  # Edit .env with your API keys'',
      ''  make install-dev'', ''  make all-checks'', ''  make chainlit-dev'']"

definition post_process :: "names \<Rightarrow> args \<Rightarrow> world \<Rightarrow> result" where
  "post_process names a w =
     (if \<not> arg_dry_run a then
        and_then
          (if truthy (arg_description a)
           then update_description names (the (arg_description a)) w else Inr w)
          (\<lambda>w. if arg_port a \<noteq> 1337 then update_port names (arg_port a) w else Inr w)
      else Inr w)"

definition self_delete :: "bool \<Rightarrow> world \<Rightarrow> result" where
  "self_delete dry_run w =
     (if dry_run then Inr (print ''[DRY RUN] Would delete: sbin/scaffold.py'' w)
      else and_then (unlink script_path w) (\<lambda>w. Inr (print ''Removed: sbin/scaffold.py'' w)))"

definition not_template_message :: string where
  "not_template_message =
     ''Error: scaffold.py must be run from a repo cloned from the autobots-agents-jarvis template.''"

definition scaffold :: "args \<Rightarrow> world \<Rightarrow> result" where
  "scaffold a w =
     (case derive_names (arg_name a) of
        Inl message \<Rightarrow> Inl (SystemExit 1, print message w)
      | Inr derived \<Rightarrow>
          let names = (if truthy (arg_display_name a)
                       then derived\<lparr>display_name := the (arg_display_name a)\<rparr> else derived);
              dry_run = arg_dry_run a
          in
          if \<not> is_dir [''src'', ''autobots_agents_jarvis''] w then
            Inl (SystemExit 1, print not_template_message w)
          else
            and_then (Inr (remove_demo_content dry_run
                             (clean_artifacts dry_run (fold print (banner names a) w))))
            (\<lambda>w. and_then (replace_in_files (build_replacements names) dry_run w)
            (\<lambda>w. and_then (rename_paths names dry_run w)
            (\<lambda>w. and_then (post_process names a w)
            (\<lambda>w. and_then (self_delete dry_run w)
            (\<lambda>w. Inr (fold print closing w)))))))"

text \<open>The state a run ends in, whether it completed or was ended by an exception.\<close>

definition final_world :: "result \<Rightarrow> world" where
  "final_world r = (case r of Inl (e, w) \<Rightarrow> w | Inr w \<Rightarrow> w)"

subsection \<open>A small instance of the template\<close>

definition template_tree :: node where
  "template_tree =
     Dir ''my-project''
       [File ''Makefile'' (Text ''CHAINLIT_PORT = 1337''),
        File ''logo.png'' (Text ''jarvis''),
        Dir ''.venv'' [File ''settings.py'' (Text ''port(default=1337)'')],
        Dir ''src''
          [Dir ''autobots_agents_jarvis''
             [Dir ''configs'' [File ''settings.py'' (Text ''JarvisSettings default=1337'')],
              Dir ''domains'' [Dir ''jarvis'' [File ''jarvis_tools.py'' (Text ''jarvis'')]]]],
        Dir ''sbin''
          [File ''scaffold.py'' (Text ''''),
           File ''run_jarvis.sh'' (Text ''PORT:-1337'')]]"

definition template_world :: world where
  "template_world = \<lparr> parent_name = ''work'', tree = template_tree, out = [], opened = [] \<rparr>"

definition cli :: "string \<Rightarrow> int \<Rightarrow> bool \<Rightarrow> args" where
  "cli nm port dry_run =
     \<lparr> arg_name = nm, arg_display_name = None, arg_description = None,
       arg_port = port, arg_dry_run = dry_run \<rparr>"

text \<open>The same for a path that starts in a list of directory entries.\<close>

definition file_in :: "string \<Rightarrow> string list \<Rightarrow> node list \<Rightarrow> contents option" where
  "file_in x xs cs = (case lookup_in x xs cs of Some (File n c) \<Rightarrow> Some c | _ \<Rightarrow> None)"

definition kbe_pay_names :: names where
  "kbe_pay_names =
     \<lparr> name = ''kbe-pay'', repo_name = ''autobots-kbe-pay'', pypi_name = ''autobots-kbe-pay'',
       package_name = ''autobots_kbe_pay'', snake_name = ''kbe_pay'',
       pascal_name = ''KbePay'', display_name = ''Kbe Pay'' \<rparr>"

definition empty_world :: world where
  "empty_world = \<lparr> parent_name = ''work'', tree = Dir ''my-project'' [], out = [], opened = [] \<rparr>"

text \<open>A run that ended in \<^verbatim>\<open>sys.exit\<close>.\<close>

fun is_exit :: "result \<Rightarrow> bool" where
  "is_exit (Inl (SystemExit n, w)) = True"
| "is_exit r = False"

text \<open>
  The naming grammar in the words of the specification: a lowercase letter, then lowercase
  letters and digits, then any number of groups, each a hyphen followed by at least one
  lowercase letter or digit.
\<close>

definition lowercase_hyphenated :: "string \<Rightarrow> bool" where
  "lowercase_hyphenated s =
     (case split CHR ''-'' s of
        [] \<Rightarrow> False
      | first # groups \<Rightarrow>
          (case first of [] \<Rightarrow> False | c # cs \<Rightarrow> is_lower c \<and> list_all is_lower_digit cs)
          \<and> list_all (\<lambda>g. g \<noteq> [] \<and> list_all is_lower_digit g) groups)"

text \<open>A path that lies below a directory with a protected name.\<close>

definition below_protected :: "string list \<Rightarrow> bool" where
  "below_protected p = (\<exists>part \<in> set (butlast p). part \<in> set SKIP_DIRS)"

definition cached_demo_world :: world where
  "cached_demo_world =
     \<lparr> parent_name = ''work'',
       tree = Dir ''my-project''
         [Dir ''src'' [Dir ''autobots_agents_jarvis'' []],
          Dir ''tests'' [Dir ''unit'' [Dir ''domains''
             [Dir ''__pycache__'' [File ''conftest.pyc'' (Undecodable [CHR 0xFF, CHR 0xFE])]]]],
          Dir ''sbin'' [File ''scaffold.py'' (Text '''')]],
       out = [], opened = [] \<rparr>"

section \<open>Verified properties\<close>

subsection \<open>Name derivation\<close>

lemma derive_kbe_pay:
  "derive_names ''kbe-pay'' =
     Inr \<lparr> name = ''kbe-pay'', repo_name = ''autobots-kbe-pay'',
           pypi_name = ''autobots-kbe-pay'', package_name = ''autobots_kbe_pay'',
           snake_name = ''kbe_pay'', pascal_name = ''KbePay'', display_name = ''Kbe Pay'' \<rparr>"
  by code_simp

text \<open>
  Claim C1. \<open>derive_names\<close> is a function of the name alone: it reads and writes no state.
  For every name the validating pattern accepts it returns a record (it does not exit),
  and each field of the record is the stated function of the name. For \<^verbatim>\<open>kbe-pay\<close> the
  record is the one the specification lists.
\<close>

theorem derive_names_deterministic:
  "re_match_name nm \<Longrightarrow>
     (\<exists>r. derive_names nm = Inr r \<and> name r = nm \<and> repo_name r = ''autobots-'' @ nm
          \<and> package_name r = ''autobots_'' @ replace ''-'' ''_'' nm
          \<and> snake_name r = replace ''-'' ''_'' nm
          \<and> pascal_name r = concat (map capitalize (split CHR ''-'' nm))
          \<and> display_name r = join '' '' (map capitalize (split CHR ''-'' nm)))
     \<and> derive_names ''kbe-pay'' =
         Inr \<lparr> name = ''kbe-pay'', repo_name = ''autobots-kbe-pay'',
               pypi_name = ''autobots-kbe-pay'', package_name = ''autobots_kbe_pay'',
               snake_name = ''kbe_pay'', pascal_name = ''KbePay'', display_name = ''Kbe Pay'' \<rparr>"
  using derive_kbe_pay by (simp add: derive_names_def Let_def)

theorem derive_names_deterministic_witness:
  "re_match_name ''kbe-pay''
   \<and> (\<exists>r. derive_names ''kbe-pay'' = Inr r \<and> name r = ''kbe-pay''
          \<and> repo_name r = ''autobots-kbe-pay'' \<and> package_name r = ''autobots_kbe_pay''
          \<and> snake_name r = ''kbe_pay'' \<and> pascal_name r = ''KbePay''
          \<and> display_name r = ''Kbe Pay'')"
proof -
  have h: "re_match_name ''kbe-pay''"
    by code_simp
  have snake: "replace ''-'' ''_'' ''kbe-pay'' = ''kbe_pay''"
    by code_simp
  have pascal: "concat (map capitalize (split CHR ''-'' ''kbe-pay'')) = ''KbePay''"
    by code_simp
  have display: "join '' '' (map capitalize (split CHR ''-'' ''kbe-pay'')) = ''Kbe Pay''"
    by code_simp
  from derive_names_deterministic [OF h]
  have "\<exists>r. derive_names ''kbe-pay'' = Inr r \<and> name r = ''kbe-pay''
          \<and> repo_name r = ''autobots-'' @ ''kbe-pay''
          \<and> package_name r = ''autobots_'' @ replace ''-'' ''_'' ''kbe-pay''
          \<and> snake_name r = replace ''-'' ''_'' ''kbe-pay''
          \<and> pascal_name r = concat (map capitalize (split CHR ''-'' ''kbe-pay''))
          \<and> display_name r = join '' '' (map capitalize (split CHR ''-'' ''kbe-pay''))"
    by (rule conjunct1)
  then have "\<exists>r. derive_names ''kbe-pay'' = Inr r \<and> name r = ''kbe-pay''
          \<and> repo_name r = ''autobots-kbe-pay'' \<and> package_name r = ''autobots_kbe_pay''
          \<and> snake_name r = ''kbe_pay'' \<and> pascal_name r = ''KbePay''
          \<and> display_name r = ''Kbe Pay''"
    unfolding snake pascal display by simp
  with h show ?thesis by (rule conjI)
qed

subsection \<open>Frame lemmas for the state\<close>

lemma final_world_simps [simp]:
  "final_world (Inl (e, w)) = w" "final_world (Inr w) = w"
  by (simp_all add: final_world_def)

lemma tree_print [simp]: "tree (print l w) = tree w"
  by (simp add: print_def)

lemma opened_print [simp]: "opened (print l w) = opened w"
  by (simp add: print_def)

lemma parent_name_print [simp]: "parent_name (print l w) = parent_name w"
  by (simp add: print_def)

lemma tree_fold_print [simp]: "tree (fold print ls w) = tree w"
  by (induction ls arbitrary: w) simp_all

lemma opened_fold_print [simp]: "opened (fold print ls w) = opened w"
  by (induction ls arbitrary: w) simp_all

text \<open>A property of the state that every iteration keeps is kept by the loop.\<close>

lemma for_each_invariant:
  assumes "P w" and "\<And>x w. P w \<Longrightarrow> P (final_world (body x w))"
  shows "P (final_world (for_each body xs w))"
  using assms(1)
proof (induction xs arbitrary: w)
  case Nil
  then show ?case by simp
next
  case (Cons x xs)
  show ?case
  proof (cases "body x w")
    case (Inl ew)
    with assms(2) [OF Cons.prems, of x] show ?thesis by (cases ew) simp
  next
    case (Inr w')
    with assms(2) [OF Cons.prems, of x] Cons.IH [of w'] show ?thesis by simp
  qed
qed

lemma and_then_invariant:
  assumes "P (final_world r)" and "\<And>w. P w \<Longrightarrow> P (final_world (f w))"
  shows "P (final_world (and_then r f))"
  using assms by (cases r) (auto simp: and_then_def)

subsection \<open>Dry run\<close>

lemma clean_one_dry [simp]: "tree (clean_one True rel w) = tree w"
  by (simp add: clean_one_def Let_def)

lemma clean_artifacts_dry: "tree (clean_artifacts True w) = tree w"
proof -
  have "tree (fold (clean_one True) xs w) = tree w" for xs
    by (induction xs arbitrary: w) simp_all
  then show ?thesis by (simp add: clean_artifacts_def)
qed

lemma remove_one_dry [simp]: "tree (remove_one True rel w) = tree w"
  by (simp add: remove_one_def Let_def)

lemma remove_demo_content_dry: "tree (remove_demo_content True w) = tree w"
proof -
  have "tree (fold (remove_one True) xs w) = tree w" for xs
    by (induction xs arbitrary: w) simp_all
  then show ?thesis by (simp add: remove_demo_content_def)
qed

lemma tree_read_text [simp]: "tree (snd (read_text p w)) = tree w"
  by (simp add: read_text_def)

lemma replace_in_file_dry:
  "tree w = t \<Longrightarrow> tree (final_world (replace_in_file reps True root filename w)) = t"
  by (cases "read_text (root @ [filename]) w")
     (use tree_read_text [of "root @ [filename]" w] in
       \<open>auto simp: replace_in_file_def Let_def split: sum.splits exn.splits\<close>)

lemma replace_in_files_dry: "tree (final_world (replace_in_files reps True w)) = tree w"
proof -
  have inner: "tree v = tree w \<Longrightarrow>
      tree (final_world (for_each (replace_in_file reps True root) files v)) = tree w"
    for root files v
    by (rule for_each_invariant [where P = "\<lambda>v. tree v = tree w"])
       (simp_all add: replace_in_file_dry)
  show ?thesis
    unfolding replace_in_files_def
    by (rule for_each_invariant [where P = "\<lambda>v. tree v = tree w"]) (auto simp: inner)
qed

lemma rename_one_dry:
  "tree w = t \<Longrightarrow> tree (final_world (rename_one True proj pr w)) = t"
  by (cases pr) (simp add: rename_one_def split: sum.splits)

lemma rename_paths_dry: "tree (final_world (rename_paths names True w)) = tree w"
  unfolding rename_paths_def
  by (rule for_each_invariant [where P = "\<lambda>v. tree v = tree w"])
     (simp_all add: rename_one_dry)

lemma post_process_dry: "arg_dry_run a \<Longrightarrow> post_process names a w = Inr w"
  by (simp add: post_process_def)

lemma self_delete_dry: "tree (final_world (self_delete True w)) = tree w"
  by (simp add: self_delete_def)

lemma pipeline_dry:
  assumes "arg_dry_run a"
  shows "tree (final_world
           (and_then (Inr (remove_demo_content True
                             (clean_artifacts True (fold print (banner names a) w))))
            (\<lambda>w. and_then (replace_in_files (build_replacements names) True w)
            (\<lambda>w. and_then (rename_paths names True w)
            (\<lambda>w. and_then (post_process names a w)
            (\<lambda>w. and_then (self_delete True w)
            (\<lambda>w. Inr (fold print closing w)))))))) = tree w"
proof -
  let ?P = "\<lambda>v. tree v = tree w"
  show ?thesis
    using assms
    by (intro and_then_invariant [where P = ?P])
       (simp_all add: clean_artifacts_dry remove_demo_content_dry replace_in_files_dry
          rename_paths_dry post_process_dry self_delete_dry)
qed

text \<open>
  Claim C3. With \<^verbatim>\<open>--dry-run\<close> the project tree at the end of the run, however the run
  ends, is the tree it started with: no file content and no part of the structure changes
  in any step.
\<close>

theorem dry_run_never_mutates:
  assumes "arg_dry_run a"
  shows "tree (final_world (scaffold a w)) = tree w"
  using assms pipeline_dry [OF assms]
  by (simp add: scaffold_def Let_def split: sum.splits)

theorem dry_run_never_mutates_witness:
  "arg_dry_run (cli ''kbe-pay'' 8080 True)
   \<and> tree (final_world (scaffold (cli ''kbe-pay'' 8080 True) template_world))
       = tree template_world"
  using dry_run_never_mutates [of "cli ''kbe-pay'' 8080 True" template_world]
  by (simp add: cli_def)

subsection \<open>Writing a file changes that file only\<close>

lemma node_name_set_text [simp]: "node_name (set_text s n) = node_name n"
  by (cases n) simp_all

lemma node_name_update_at:
  "(\<And>n. node_name (f n) = node_name n) \<Longrightarrow> node_name (update_at q f t) = node_name t"
  by (cases q; cases t) simp_all

lemma file_at_Nil: "file_at [] t = (case t of File n c \<Rightarrow> Some c | Dir n cs \<Rightarrow> None)"
  by (simp add: file_at_def split: node.splits)

lemma file_at_Cons_File [simp]: "file_at (x # xs) (File n c) = None"
  by (simp add: file_at_def)

lemma file_at_Cons_Dir [simp]: "file_at (x # xs) (Dir n cs) = file_in x xs cs"
  by (simp add: file_at_def file_in_def)

lemma file_in_Nil [simp]: "file_in x xs [] = None"
  by (simp add: file_in_def)

lemma file_in_Cons [simp]:
  "file_in x xs (c # cs) = (if node_name c = x then file_at xs c else file_in x xs cs)"
  by (simp add: file_in_def file_at_def)

lemma file_at_write_other_aux:
  "(\<forall>p. p \<noteq> q \<longrightarrow> file_at p (update_at q (set_text s) t) = file_at p t)"
  "(\<forall>y ys. y # ys \<noteq> x # xs \<longrightarrow> file_in y ys (update_in x xs (set_text s) cs) = file_in y ys cs)"
proof (induction q "set_text s" t and x xs "set_text s" cs rule: update_at_update_in.induct)
  case (1 n)
  show ?case
  proof (intro allI impI)
    fix p :: "string list" assume "p \<noteq> []"
    then obtain y ys where "p = y # ys" by (cases p) auto
    then show "file_at p (update_at [] (set_text s) n) = file_at p n"
      by (cases n) simp_all
  qed
next
  case (2 x xs n c)
  show ?case by simp
next
  case (3 x xs n cs)
  show ?case
  proof (intro allI impI)
    fix p :: "string list" assume ne: "p \<noteq> x # xs"
    show "file_at p (update_at (x # xs) (set_text s) (Dir n cs)) = file_at p (Dir n cs)"
    proof (cases p)
      case Nil
      then show ?thesis by (simp add: file_at_Nil)
    next
      case (Cons y ys)
      with ne 3 show ?thesis by simp
    qed
  qed
next
  case (4 x xs)
  show ?case by simp
next
  case (5 x xs c cs)
  show ?case
  proof (intro allI impI)
    fix y ys assume ne: "y # ys \<noteq> x # xs"
    show "file_in y ys (update_in x xs (set_text s) (c # cs)) = file_in y ys (c # cs)"
    proof (cases "node_name c = x")
      case True
      with 5(1) ne show ?thesis
        by (auto simp: node_name_update_at)
    next
      case False
      with 5(2) ne show ?thesis by auto
    qed
  qed
qed

lemma file_at_write_other:
  "p \<noteq> q \<Longrightarrow> file_at p (tree (write_text q s w)) = file_at p (tree w)"
  using file_at_write_other_aux(1) [of q s "tree w"] by (simp add: write_text_def)

subsection \<open>Binary files and the content rewriter\<close>

lemma opened_write_text [simp]: "opened (write_text q s w) = opened w"
  by (simp add: write_text_def)

lemma opened_read_text [simp]: "opened (snd (read_text p w)) = opened w @ [p]"
  by (simp add: read_text_def)

lemma replace_in_file_binary:
  assumes "is_binary p"
  shows "file_at p (tree (final_world (replace_in_file reps dry_run root filename w)))
           = file_at p (tree w)
         \<and> (p \<in> set (opened (final_world (replace_in_file reps dry_run root filename w)))
              \<longrightarrow> p \<in> set (opened w))"
proof (cases "is_binary (root @ [filename])")
  case True
  then show ?thesis by (simp add: replace_in_file_def)
next
  case False
  with assms have ne: "p \<noteq> root @ [filename]" by auto
  obtain r v where rv: "read_text (root @ [filename]) w = (r, v)"
    by (cases "read_text (root @ [filename]) w")
  with tree_read_text [of "root @ [filename]" w] opened_read_text [of "root @ [filename]" w]
  have v: "tree v = tree w" "opened v = opened w @ [root @ [filename]]" by simp_all
  show ?thesis
    using False rv v ne
    by (auto simp: replace_in_file_def Let_def file_at_write_other
             split: sum.splits exn.splits)
qed

text \<open>
  Claim C9. A file that \<open>is_binary\<close> classifies as binary by its extension (lower-cased
  before the comparison) is not touched by the content rewriter: its content after
  \<open>replace_in_files\<close> is its content before, whether the rewriter completes or is ended
  by an exception, and the rewriter does not open it.
\<close>

theorem binary_files_untouched:
  assumes "is_binary p"
  shows "file_at p (tree (final_world (replace_in_files reps dry_run w))) = file_at p (tree w)
         \<and> (p \<in> set (opened (final_world (replace_in_files reps dry_run w)))
              \<longrightarrow> p \<in> set (opened w))"
proof -
  let ?P = "\<lambda>v::world. file_at p (tree v) = file_at p (tree w)
                \<and> (p \<in> set (opened v) \<longrightarrow> p \<in> set (opened w))"
  have step: "?P v \<Longrightarrow> ?P (final_world (replace_in_file reps dry_run root filename v))"
    for v root filename
    using replace_in_file_binary [OF assms, of reps dry_run root filename v] by simp
  have inner: "?P (final_world (for_each (replace_in_file reps dry_run root) files v))"
    if "?P v" for v root files
    using that by (rule for_each_invariant [where P = ?P]) (rule step)
  have "?P (final_world (replace_in_files reps dry_run w))"
    unfolding replace_in_files_def
  proof (rule for_each_invariant [where P = ?P])
    show "?P w" by simp
  next
    fix x :: "string list \<times> string list" and v :: world
    assume pv: "?P v"
    obtain root files where x: "x = (root, files)" by (cases x)
    show "?P (final_world ((case x of (root, files) \<Rightarrow>
                     for_each (replace_in_file reps dry_run root) files) v))"
      unfolding x using inner [OF pv, of root files] by simp
  qed
  then show ?thesis .
qed

theorem binary_files_untouched_witness:
  "is_binary [''logo.png'']
   \<and> file_at [''logo.png'']
        (tree (final_world (replace_in_files [(''jarvis'', ''kbe_pay'')] False template_world)))
       = Some (Text ''jarvis'')
   \<and> [''logo.png''] \<notin>
        set (opened (final_world (replace_in_files [(''jarvis'', ''kbe_pay'')] False template_world)))"
proof -
  have b: "is_binary [''logo.png'']" by code_simp
  have f: "file_at [''logo.png''] (tree template_world) = Some (Text ''jarvis'')" by code_simp
  have o: "opened template_world = []" by (simp add: template_world_def)
  from binary_files_untouched [OF b, of "[(''jarvis'', ''kbe_pay'')]" False template_world]
  show ?thesis using b f o by simp
qed

subsection \<open>The execute phase of the path renamer\<close>

lemma relative_to_append [simp]: "relative_to proj (proj @ rel) = Inr rel"
  by (simp add: relative_to_def)

lemma renames_of_shape:
  assumes "(old, new) \<in> set (renames_of sn pkg proj entry)"
  shows "\<exists>rel. old = proj @ rel \<and> (rel \<noteq> [] \<longrightarrow> (\<exists>rel'. new = proj @ rel'))"
proof -
  obtain root files where e: "entry = (root, files)" by (cases entry)
  have pp: "root \<noteq> [] \<Longrightarrow> path_parent (proj @ root) = proj @ butlast root"
    by (simp add: path_parent_def butlast_append)
  show ?thesis
  proof (cases "root = []")
    case True
    with assms e show ?thesis
      by (auto simp: renames_of_def Let_def split: if_splits)
  next
    case False
    with assms e pp show ?thesis
      by (auto simp: renames_of_def Let_def split: if_splits)
  qed
qed

lemma paths_to_rename_shape:
  assumes "(old, new) \<in> set (paths_to_rename names w)"
  shows "\<exists>rel. old = project_dir w @ rel \<and> (rel \<noteq> [] \<longrightarrow> (\<exists>rel'. new = project_dir w @ rel'))"
  using assms renames_of_shape unfolding paths_to_rename_def by fastforce

lemma exists_root [simp]: "exists [] w"
  by (simp add: exists_def)

text \<open>
  Claim C10. In the execute phase, a rename computed by the first phase whose source does
  not exist at execution time is dropped: the state is returned as it is, nothing is
  printed and nothing is raised. A rename that changes the state had a source that
  existed.
\<close>

theorem stale_rename_dropped:
  assumes "(old, new) \<in> set (paths_to_rename names w0)"
  shows "\<exists>rel_old. relative_to (project_dir w0) old = Inr rel_old
           \<and> (\<not> exists rel_old w \<longrightarrow> rename_one False (project_dir w0) (old, new) w = Inr w)
           \<and> (\<forall>w'. rename_one False (project_dir w0) (old, new) w = Inr w' \<and> w' \<noteq> w
                  \<longrightarrow> exists rel_old w)"
proof -
  from paths_to_rename_shape [OF assms] obtain rel
    where old: "old = project_dir w0 @ rel"
      and new: "rel \<noteq> [] \<longrightarrow> (\<exists>rel'. new = project_dir w0 @ rel')"
    by blast
  have dropped: "rename_one False (project_dir w0) (old, new) w = Inr w" if "\<not> exists rel w"
  proof -
    from that have "rel \<noteq> []" by auto
    with new obtain rel' where "new = project_dir w0 @ rel'" by blast
    with old that show ?thesis by (simp add: rename_one_def)
  qed
  have performed: "exists rel w"
    if "rename_one False (project_dir w0) (old, new) w = Inr w'" and "w' \<noteq> w" for w'
    using that old by (auto simp: rename_one_def split: sum.splits if_splits)
  from old dropped performed show ?thesis by auto
qed

theorem stale_rename_dropped_witness:
  "([''work'', ''my-project'', ''sbin'', ''run_jarvis.sh''],
    [''work'', ''my-project'', ''sbin'', ''run_kbe_pay.sh''])
     \<in> set (paths_to_rename kbe_pay_names template_world)
   \<and> relative_to (project_dir template_world) [''work'', ''my-project'', ''sbin'', ''run_jarvis.sh'']
       = Inr [''sbin'', ''run_jarvis.sh'']
   \<and> \<not> exists [''sbin'', ''run_jarvis.sh''] empty_world
   \<and> rename_one False (project_dir template_world)
        ([''work'', ''my-project'', ''sbin'', ''run_jarvis.sh''],
         [''work'', ''my-project'', ''sbin'', ''run_kbe_pay.sh'']) empty_world = Inr empty_world"
proof -
  let ?old = "[''work'', ''my-project'', ''sbin'', ''run_jarvis.sh'']"
  let ?new = "[''work'', ''my-project'', ''sbin'', ''run_kbe_pay.sh'']"
  have mem: "(?old, ?new) \<in> set (paths_to_rename kbe_pay_names template_world)"
    by code_simp
  have rel: "relative_to (project_dir template_world) ?old = Inr [''sbin'', ''run_jarvis.sh'']"
    by code_simp
  have gone: "\<not> exists [''sbin'', ''run_jarvis.sh''] empty_world"
    by code_simp
  from stale_rename_dropped [OF mem, of empty_world] rel gone
  have "rename_one False (project_dir template_world) (?old, ?new) empty_world = Inr empty_world"
    by (metis Inr_inject)
  with mem rel gone show ?thesis by blast
qed

subsection \<open>Controlled exits\<close>

lemma is_exit_iff: "is_exit r \<longleftrightarrow> (\<exists>n w. r = Inl (SystemExit n, w))"
  by (cases r rule: is_exit.cases) auto

lemma for_each_no_exit:
  assumes "\<And>x w. \<not> is_exit (body x w)"
  shows "\<not> is_exit (for_each body xs w)"
proof (induction xs arbitrary: w)
  case Nil
  show ?case by simp
next
  case (Cons x xs)
  show ?case
  proof (cases "body x w")
    case (Inl ew)
    with assms [of x w] show ?thesis by simp
  next
    case (Inr w')
    with Cons [of w'] show ?thesis by simp
  qed
qed

lemma and_then_no_exit:
  assumes "\<not> is_exit r" and "\<And>w. \<not> is_exit (f w)"
  shows "\<not> is_exit (and_then r f)"
  using assms by (cases r) (simp_all add: and_then_def)

lemma read_text_no_exit: "fst (read_text p w) \<noteq> Inl (SystemExit n)"
  by (simp add: read_text_def split: option.splits node.splits contents.splits)

lemma replace_in_file_no_exit: "\<not> is_exit (replace_in_file reps dry_run root filename w)"
proof -
  obtain r v where rv: "read_text (root @ [filename]) w = (r, v)"
    by (cases "read_text (root @ [filename]) w")
  with read_text_no_exit [of "root @ [filename]" w] have "\<And>n. r \<noteq> Inl (SystemExit n)" by simp
  with rv show ?thesis
    by (auto simp: replace_in_file_def Let_def is_exit_iff split: sum.splits exn.splits)
qed

lemma replace_in_files_no_exit: "\<not> is_exit (replace_in_files reps dry_run w)"
  unfolding replace_in_files_def
proof (rule for_each_no_exit)
  fix x :: "string list \<times> string list" and v :: world
  show "\<not> is_exit ((case x of (root, files) \<Rightarrow>
                      for_each (replace_in_file reps dry_run root) files) v)"
    using for_each_no_exit [of "replace_in_file reps dry_run (fst x)" "snd x" v]
      replace_in_file_no_exit
    by (cases x) simp
qed

lemma rename_no_exit: "rename old new t \<noteq> Inl (SystemExit n)"
  by (simp add: rename_def split: option.splits node.splits)

lemma rename_one_no_exit: "\<not> is_exit (rename_one dry_run proj pr w)"
  using rename_no_exit
  by (cases pr)
     (auto simp: rename_one_def relative_to_def is_exit_iff split: sum.splits if_splits)

lemma rename_paths_no_exit: "\<not> is_exit (rename_paths names dry_run w)"
  unfolding rename_paths_def by (rule for_each_no_exit) (rule rename_one_no_exit)

lemma rewrite_literal_no_exit: "\<not> is_exit (rewrite_literal old new p w)"
proof -
  obtain r v where rv: "read_text p w = (r, v)" by (cases "read_text p w")
  with read_text_no_exit [of p w] have "\<And>n. r \<noteq> Inl (SystemExit n)" by simp
  with rv show ?thesis
    by (auto simp: rewrite_literal_def is_exit_iff split: sum.splits)
qed

lemma update_description_no_exit: "\<not> is_exit (update_description names d w)"
  using rewrite_literal_no_exit
  by (auto simp: update_description_def Let_def is_exit_iff split: sum.splits)

lemma update_port_no_exit: "\<not> is_exit (update_port names port w)"
  unfolding update_port_def
  by (intro and_then_no_exit for_each_no_exit)
     (simp_all add: Let_def rewrite_literal_no_exit)

lemma post_process_no_exit: "\<not> is_exit (post_process names a w)"
proof (cases "arg_dry_run a")
  case True
  then show ?thesis by (simp add: post_process_def)
next
  case False
  have "\<not> is_exit
          (and_then
             (if truthy (arg_description a)
              then update_description names (the (arg_description a)) w else Inr w)
             (\<lambda>w. if arg_port a \<noteq> 1337 then update_port names (arg_port a) w else Inr w))"
    by (rule and_then_no_exit) (simp_all add: update_description_no_exit update_port_no_exit)
  with False show ?thesis by (simp add: post_process_def)
qed

lemma unlink_no_exit: "\<not> is_exit (unlink p w)"
  by (simp add: unlink_def split: option.splits node.splits)

lemma self_delete_no_exit: "\<not> is_exit (self_delete dry_run w)"
proof (cases dry_run)
  case True
  then show ?thesis by (simp add: self_delete_def)
next
  case False
  have "\<not> is_exit (and_then (unlink script_path w)
                     (\<lambda>w. Inr (print ''Removed: sbin/scaffold.py'' w)))"
    by (rule and_then_no_exit) (simp_all add: unlink_no_exit)
  with False show ?thesis by (simp add: self_delete_def)
qed

lemma pipeline_no_exit:
  "\<not> is_exit
      (and_then (Inr (remove_demo_content dry_run
                        (clean_artifacts dry_run (fold print (banner names a) w))))
       (\<lambda>w. and_then (replace_in_files (build_replacements names) dry_run w)
       (\<lambda>w. and_then (rename_paths names dry_run w)
       (\<lambda>w. and_then (post_process names a w)
       (\<lambda>w. and_then (self_delete dry_run w)
       (\<lambda>w. Inr (fold print closing w)))))))"
  by (intro and_then_no_exit)
     (simp_all add: replace_in_files_no_exit rename_paths_no_exit post_process_no_exit
        self_delete_no_exit)

text \<open>
  Claim C8, as stated, fails: a name that passes validation does not rule out a controlled
  exit, because the script checks next that \<^verbatim>\<open>src/autobots_agents_jarvis\<close> is a
  directory of the project and exits with status 1 when it is not.
\<close>

theorem valid_name_early_exit_counterexample:
  "re_match_name ''kbe-pay''
   \<and> scaffold (cli ''kbe-pay'' 1337 False) empty_world
       = Inl (SystemExit 1, print not_template_message empty_world)"
  by code_simp

text \<open>
  Claim C8, amended. The script ends in a controlled exit exactly when the name fails
  validation or the template check fails. Every controlled exit has status 1 and leaves
  the state it started in, with one line printed: no step after the two checks exits, and
  nothing is mutated before them.
\<close>

theorem controlled_exits:
  "(is_exit (scaffold a w)
      \<longleftrightarrow> \<not> re_match_name (arg_name a) \<or> \<not> is_dir [''src'', ''autobots_agents_jarvis''] w)
   \<and> (is_exit (scaffold a w)
      \<longrightarrow> (\<exists>message. scaffold a w = Inl (SystemExit 1, print message w)))"
  using pipeline_no_exit
  by (auto simp: scaffold_def derive_names_def Let_def)

theorem controlled_exits_witness:
  "is_exit (scaffold (cli ''MyApp'' 1337 False) template_world)
   \<and> (\<exists>message. scaffold (cli ''MyApp'' 1337 False) template_world
                   = Inl (SystemExit 1, print message template_world))
   \<and> \<not> is_exit (scaffold (cli ''kbe-pay'' 1337 False) template_world)"
proof -
  have bad: "\<not> re_match_name (arg_name (cli ''MyApp'' 1337 False))"
    by code_simp
  have good: "re_match_name (arg_name (cli ''kbe-pay'' 1337 False))"
    by code_simp
  have template: "is_dir [''src'', ''autobots_agents_jarvis''] template_world"
    by code_simp
  from controlled_exits [of "cli ''MyApp'' 1337 False" template_world] bad
  have "is_exit (scaffold (cli ''MyApp'' 1337 False) template_world)
        \<and> (\<exists>message. scaffold (cli ''MyApp'' 1337 False) template_world
                        = Inl (SystemExit 1, print message template_world))"
    by blast
  moreover from controlled_exits [of "cli ''kbe-pay'' 1337 False" template_world] good template
  have "\<not> is_exit (scaffold (cli ''kbe-pay'' 1337 False) template_world)"
    by blast
  ultimately show ?thesis by blast
qed

subsection \<open>Protected directories and the port override\<close>

text \<open>
  The content rewriter and the path renamer skip the directories of \<open>SKIP_DIRS\<close>, but the
  port override finds its settings files with \<^verbatim>\<open>rglob\<close>, which does not: a
  \<^verbatim>\<open>settings.py\<close> below \<^verbatim>\<open>.venv\<close> is rewritten.
\<close>

lemma protected_settings_file_rewritten:
  "''.venv'' \<in> set SKIP_DIRS
   \<and> file_at [''.venv'', ''settings.py''] (tree template_world)
       = Some (Text ''port(default=1337)'')
   \<and> file_at [''.venv'', ''settings.py'']
        (tree (final_world (scaffold (cli ''kbe-pay'' 8080 False) template_world)))
       = Some (Text ''port(default=8080)'')"
  by code_simp

subsection \<open>Names that end in a newline\<close>

text \<open>
  Claim C2 does not hold of the code. The pattern ends in \<^verbatim>\<open>$\<close>, which also matches just
  before a final newline, so a name such as \<^verbatim>\<open>a\<close> followed by a newline is not in the
  grammar and is accepted all the same; the derived names carry the newline.
\<close>

theorem newline_name_accepted:
  "\<not> lowercase_hyphenated [CHR ''a'', CHR 0x0A]
   \<and> derive_names [CHR ''a'', CHR 0x0A] =
       Inr \<lparr> name = [CHR ''a'', CHR 0x0A],
             repo_name = ''autobots-'' @ [CHR ''a'', CHR 0x0A],
             pypi_name = ''autobots-'' @ [CHR ''a'', CHR 0x0A],
             package_name = ''autobots_'' @ [CHR ''a'', CHR 0x0A],
             snake_name = [CHR ''a'', CHR 0x0A],
             pascal_name = [CHR ''A'', CHR 0x0A],
             display_name = [CHR ''A'', CHR 0x0A] \<rparr>
   \<and> \<not> is_exit (scaffold (cli [CHR ''a'', CHR 0x0A] 1337 False) template_world)"
  by code_simp

text \<open>A name the pattern rejects ends the run at once, with the diagnostic printed.\<close>

lemma rejected_name_exits:
  assumes "\<not> re_match_name (arg_name a)"
  shows "\<exists>message. derive_names (arg_name a) = Inl message
           \<and> scaffold a w = Inl (SystemExit 1, print message w)"
  using assms by (simp add: scaffold_def derive_names_def)
subsection \<open>Protected directories and the two walks\<close>

lemma for_each_invariant_mem:
  assumes "P w" and "\<And>x w. x \<in> set xs \<Longrightarrow> P w \<Longrightarrow> P (final_world (body x w))"
  shows "P (final_world (for_each body xs w))"
  using assms
proof (induction xs arbitrary: w)
  case Nil
  then show ?case by simp
next
  case (Cons x xs)
  have step: "P (final_world (body x w))"
    using Cons.prems by simp
  show ?case
  proof (cases "body x w")
    case (Inl ew)
    with step show ?thesis by (cases ew) simp
  next
    case (Inr w')
    with step have "P w'" by simp
    then have "P (final_world (for_each body xs w'))"
      using Cons.prems(2) by (intro Cons.IH) simp_all
    with Inr show ?thesis by simp
  qed
qed

lemma walk_top_down_roots:
  "(\<forall>part \<in> set root. part \<notin> set SKIP_DIRS)
     \<longrightarrow> (\<forall>e \<in> set (walk_top_down root t). \<forall>part \<in> set (fst e). part \<notin> set SKIP_DIRS)"
  "(\<forall>part \<in> set root. part \<notin> set SKIP_DIRS)
     \<longrightarrow> (\<forall>e \<in> set (walk_top_down_in root cs). \<forall>part \<in> set (fst e). part \<notin> set SKIP_DIRS)"
proof (induction root t and root cs rule: walk_top_down_walk_top_down_in.induct)
  case (1 root n c)
  show ?case by simp
next
  case (2 root n cs)
  then show ?case by simp
next
  case (3 root)
  show ?case by simp
next
  case (4 root c cs)
  show ?case
  proof (cases "is_dir_node c \<and> node_name c \<notin> set SKIP_DIRS")
    case True
    then have eq: "walk_top_down_in root (c # cs)
        = walk_top_down (root @ [node_name c]) c @ walk_top_down_in root cs" by simp
    from True 4(1) have a: "(\<forall>part \<in> set root. part \<notin> set SKIP_DIRS)
       \<longrightarrow> (\<forall>e \<in> set (walk_top_down (root @ [node_name c]) c).
              \<forall>part \<in> set (fst e). part \<notin> set SKIP_DIRS)"
      by simp
    from a 4(2) show ?thesis unfolding eq by (simp add: ball_Un)
  next
    case False
    then have "walk_top_down_in root (c # cs) = walk_top_down_in root cs" by auto
    with 4(2) show ?thesis by simp
  qed
qed

lemma replace_in_file_protected:
  assumes "below_protected p" and "\<forall>part \<in> set root. part \<notin> set SKIP_DIRS"
  shows "file_at p (tree (final_world (replace_in_file reps dry_run root filename w)))
           = file_at p (tree w)"
proof -
  from assms have ne: "p \<noteq> root @ [filename]"
    by (auto simp: below_protected_def)
  obtain r v where rv: "read_text (root @ [filename]) w = (r, v)"
    by (cases "read_text (root @ [filename]) w")
  with tree_read_text [of "root @ [filename]" w] have v: "tree v = tree w" by simp
  show ?thesis
    using rv v ne
    by (auto simp: replace_in_file_def Let_def file_at_write_other
             split: sum.splits exn.splits)
qed

lemma replace_in_files_protected:
  assumes "below_protected p"
  shows "file_at p (tree (final_world (replace_in_files reps dry_run w))) = file_at p (tree w)"
proof -
  let ?P = "\<lambda>v::world. file_at p (tree v) = file_at p (tree w)"
  have inner: "?P (final_world (for_each (replace_in_file reps dry_run root) files v))"
    if "?P v" and "\<forall>part \<in> set root. part \<notin> set SKIP_DIRS" for v root files
    using that(1)
    by (rule for_each_invariant [where P = ?P])
       (simp add: replace_in_file_protected [OF assms that(2)])
  show ?thesis
    unfolding replace_in_files_def
  proof (rule for_each_invariant_mem [where P = ?P])
    show "?P w" by simp
  next
    fix x :: "string list \<times> string list" and v :: world
    assume mem: "x \<in> set (walk_top_down [] (tree w))" and pv: "?P v"
    obtain root files where x: "x = (root, files)" by (cases x)
    from mem x walk_top_down_roots(1) [of "[]" "tree w"]
    have "\<forall>part \<in> set root. part \<notin> set SKIP_DIRS" by fastforce
    from inner [OF pv this, of files]
    show "?P (final_world ((case x of (root, files) \<Rightarrow>
                     for_each (replace_in_file reps dry_run root) files) v))"
      unfolding x by simp
  qed
qed

lemma jarvis_not_protected: "contains ''jarvis'' x \<Longrightarrow> x \<notin> set SKIP_DIRS"
proof
  assume c: "contains ''jarvis'' x" and "x \<in> set SKIP_DIRS"
  then consider "x = ''.git''" | "x = ''.venv''" | "x = ''__pycache__''" | "x = ''node_modules''"
    by (auto simp: SKIP_DIRS_def)
  then show False using c by cases simp_all
qed

lemma renames_of_unprotected:
  assumes "(old, new) \<in> set (renames_of sn pkg proj entry)"
  shows "\<exists>rel. old = proj @ rel \<and> (\<forall>part \<in> set rel. part \<notin> set SKIP_DIRS)"
proof -
  obtain root files where e: "entry = (root, files)" by (cases entry)
  from assms e have root: "\<forall>part \<in> set root. part \<notin> set SKIP_DIRS"
    by (auto simp: renames_of_def Let_def split: if_splits)
  from assms e
  consider (a_file) filename where "old = proj @ root @ [filename]" and "contains ''jarvis'' filename"
    | (a_dir) "old = proj @ root"
    by (auto simp: renames_of_def Let_def split: if_splits)
  then show ?thesis
  proof cases
    case a_file
    with root jarvis_not_protected [OF a_file(2)] show ?thesis by auto
  next
    case a_dir
    with root show ?thesis by auto
  qed
qed

text \<open>
  Claim C6, amended. The two walks honour the protected names: the content rewriter leaves
  every file below a protected directory as it was, and the path renamer computes no
  rename whose source has a protected name anywhere in its path.
\<close>

theorem walks_skip_protected:
  "(below_protected p \<longrightarrow>
      file_at p (tree (final_world (replace_in_files reps dry_run w))) = file_at p (tree w))
   \<and> (\<forall>(old, new) \<in> set (paths_to_rename names w).
        \<exists>rel. old = project_dir w @ rel \<and> (\<forall>part \<in> set rel. part \<notin> set SKIP_DIRS))"
proof (intro conjI impI ballI)
  assume "below_protected p"
  then show "file_at p (tree (final_world (replace_in_files reps dry_run w))) = file_at p (tree w)"
    by (rule replace_in_files_protected)
next
  fix pr assume mem: "pr \<in> set (paths_to_rename names w)"
  obtain old new where pr: "pr = (old, new)" by (cases pr)
  with mem obtain entry
    where "(old, new) \<in> set (renames_of (snake_name names) (package_name names)
                                 (project_dir w) entry)"
    unfolding paths_to_rename_def by auto
  from renames_of_unprotected [OF this] pr
  show "case pr of (old, new) \<Rightarrow>
          \<exists>rel. old = project_dir w @ rel \<and> (\<forall>part \<in> set rel. part \<notin> set SKIP_DIRS)"
    by simp
qed

theorem walks_skip_protected_witness:
  "below_protected [''.venv'', ''settings.py'']
   \<and> file_at [''.venv'', ''settings.py'']
        (tree (final_world (replace_in_files (build_replacements kbe_pay_names) False
                              template_world)))
       = Some (Text ''port(default=1337)'')
   \<and> ([''work'', ''my-project'', ''sbin'', ''run_jarvis.sh''],
       [''work'', ''my-project'', ''sbin'', ''run_kbe_pay.sh''])
        \<in> set (paths_to_rename kbe_pay_names template_world)
   \<and> (\<exists>rel. [''work'', ''my-project'', ''sbin'', ''run_jarvis.sh'']
                = project_dir template_world @ rel
            \<and> list_all (\<lambda>part. part \<notin> set SKIP_DIRS) rel)"
proof -
  let ?p = "[''.venv'', ''settings.py'']"
  let ?old = "[''work'', ''my-project'', ''sbin'', ''run_jarvis.sh'']"
  let ?new = "[''work'', ''my-project'', ''sbin'', ''run_kbe_pay.sh'']"
  have below: "below_protected ?p"
    by code_simp
  have before: "file_at ?p (tree template_world) = Some (Text ''port(default=1337)'')"
    by code_simp
  have mem: "(?old, ?new) \<in> set (paths_to_rename kbe_pay_names template_world)"
    by code_simp
  note inst = walks_skip_protected [of ?p "build_replacements kbe_pay_names" False
      template_world kbe_pay_names]
  from inst have "below_protected ?p \<longrightarrow>
      file_at ?p (tree (final_world (replace_in_files (build_replacements kbe_pay_names)
             False template_world))) = file_at ?p (tree template_world)"
    by (rule conjunct1)
  with below have "file_at ?p (tree (final_world (replace_in_files
             (build_replacements kbe_pay_names) False template_world)))
           = file_at ?p (tree template_world)"
    by (rule rev_mp)
  then have a: "file_at ?p (tree (final_world (replace_in_files
             (build_replacements kbe_pay_names) False template_world)))
           = Some (Text ''port(default=1337)'')"
    by (rule trans [OF _ before])
  from inst have "\<forall>(old, new) \<in> set (paths_to_rename kbe_pay_names template_world).
        \<exists>rel. old = project_dir template_world @ rel
            \<and> (\<forall>part \<in> set rel. part \<notin> set SKIP_DIRS)"
    by (rule conjunct2)
  from bspec [OF this mem]
  have "\<exists>rel. ?old = project_dir template_world @ rel
           \<and> (\<forall>part \<in> set rel. part \<notin> set SKIP_DIRS)"
    by (simp only: prod.case)
  then obtain rel where rel: "?old = project_dir template_world @ rel"
      and un: "\<forall>part \<in> set rel. part \<notin> set SKIP_DIRS"
    by (elim exE conjE)
  from un have "list_all (\<lambda>part. part \<notin> set SKIP_DIRS) rel"
    by (simp only: list_all_iff)
  with rel have b: "\<exists>rel. ?old = project_dir template_world @ rel
           \<and> list_all (\<lambda>part. part \<notin> set SKIP_DIRS) rel"
    by (intro exI conjI)
  from below a mem b show ?thesis by (intro conjI)
qed

text \<open>
  Claim C6, as stated, fails: demo removal deletes its targets whole, and a target may
  hold a protected directory.
\<close>

theorem demo_removal_deletes_protected_file:
  "below_protected [''tests'', ''unit'', ''domains'', ''__pycache__'', ''conftest.pyc'']
   \<and> file_at [''tests'', ''unit'', ''domains'', ''__pycache__'', ''conftest.pyc'']
        (tree cached_demo_world) = Some (Undecodable [CHR 0xFF, CHR 0xFE])
   \<and> file_at [''tests'', ''unit'', ''domains'', ''__pycache__'', ''conftest.pyc'']
        (tree (final_world (scaffold (cli ''kbe-pay'' 1337 False) cached_demo_world))) = None
   \<and> \<not> is_exit (scaffold (cli ''kbe-pay'' 1337 False) cached_demo_world)"
proof -
  let ?p = "[''tests'', ''unit'', ''domains'', ''__pycache__'', ''conftest.pyc'']"
  have "below_protected ?p"
    by code_simp
  moreover have "file_at ?p (tree cached_demo_world) = Some (Undecodable [CHR 0xFF, CHR 0xFE])"
    by code_simp
  moreover have "file_at ?p
       (tree (final_world (scaffold (cli ''kbe-pay'' 1337 False) cached_demo_world))) = None"
    by code_simp
  moreover have "\<not> is_exit (scaffold (cli ''kbe-pay'' 1337 False) cached_demo_world)"
    by code_simp
  ultimately show ?thesis by blast
qed

end
